theory Spec2Isabelle
  imports
    Complex_Main
    "HOL-Library.AList"
    "HOL-Library.Multiset"
    "HOL-Library.Product_Lexorder"
    "HOL-Library.List_Lexorder"
    "HOL-Library.Char_ord"
begin

section \<open>Python values used by the league generator\<close>

text \<open>
  Exceptions of the source are values of \<open>error\<close>; a function that can raise returns
  \<open>error + 'a\<close> with \<open>Inl\<close> for the exception.
\<close>

datatype error = ValueError string | ZeroDivisionError | RuntimeError string

text \<open>
  A Python \<open>dict\<close> is an association list in insertion order whose keys are distinct.
  \<open>d[k] = v\<close> keeps the position of an existing key and appends a new one, which is
  \<open>AList.update\<close>. \<open>d[k]\<close> is only ever used by the source on keys taken from the
  dictionary itself (\<open>getitem_defined\<close> below), so the \<open>KeyError\<close> branch is
  unreachable and \<open>getitem\<close> reads the stored value.
\<close>

type_synonym ('k, 'v) dict = "('k \<times> 'v) list"

definition getitem :: "('k, 'v) dict \<Rightarrow> 'k \<Rightarrow> 'v" where
  "getitem d k = the (map_of d k)"

definition dict_get :: "('k, 'v) dict \<Rightarrow> 'k \<Rightarrow> 'v \<Rightarrow> 'v" where
  "dict_get d k dflt = (case map_of d k of Some v \<Rightarrow> v | None \<Rightarrow> dflt)"

definition setitem :: "'k \<Rightarrow> 'v \<Rightarrow> ('k, 'v) dict \<Rightarrow> ('k, 'v) dict" where
  "setitem k v d = AList.update k v d"

text \<open>\<open>{k: v for ...}\<close>: items are stored left to right, a later item overwrites.\<close>

definition dict_of :: "('k \<times> 'v) list \<Rightarrow> ('k, 'v) dict" where
  "dict_of kvs = foldl (\<lambda>d (k, v). setitem k v d) [] kvs"

section \<open>Ranking and Borda points (\<open>compute_rank_and_borda_with_time\<close>)\<close>

text \<open>
  Ranks and Borda points are Python floats. Every value the ranker produces is an
  integer or a half-integer (the mean of consecutive integers), which a float holds
  exactly far beyond any leaderboard size, so they are modelled as rationals.
\<close>

definition player_sort_key :: "(string, int) dict \<Rightarrow> (string, int) dict \<Rightarrow> string \<Rightarrow> int \<times> int" where
  "player_sort_key pts_by_player time_by_player p =
     (- getitem pts_by_player p, dict_get time_by_player p (10 ^ 12))"

definition group_key :: "(string, int) dict \<Rightarrow> (string, int) dict \<Rightarrow> string \<Rightarrow> int \<times> int" where
  "group_key pts_by_player time_by_player p =
     (getitem pts_by_player p, dict_get time_by_player p (10 ^ 12))"

text \<open>\<open>groups.setdefault(key, []).append(p)\<close>\<close>

definition setdefault_append :: "'k \<Rightarrow> 'a \<Rightarrow> ('k, 'a list) dict \<Rightarrow> ('k, 'a list) dict" where
  "setdefault_append k p groups =
     (case map_of groups k of
        None \<Rightarrow> groups @ [(k, [p])]
      | Some names \<Rightarrow> setitem k (names @ [p]) groups)"

definition build_groups ::
  "(string, int) dict \<Rightarrow> (string, int) dict \<Rightarrow> string list \<Rightarrow> (int \<times> int, string list) dict" where
  "build_groups pts_by_player time_by_player players_sorted =
     foldl (\<lambda>groups p. setdefault_append (group_key pts_by_player time_by_player p) p groups)
       [] players_sorted"

definition group_order_key :: "int \<times> int \<Rightarrow> int \<times> int" where
  "group_order_key k = (- fst k, snd k)"

text \<open>
  The value given to a tie group of two or more players; \<open>occupied\<close> is
  \<open>range(current_rank, current_rank + k)\<close>.
\<close>

definition tie_value :: "string \<Rightarrow> nat list \<Rightarrow> nat \<Rightarrow> error + rat" where
  "tie_value tie_mode occupied current_rank =
     (if tie_mode = ''average'' then
        (if occupied = [] then Inl ZeroDivisionError
         else Inr (of_nat (sum_list occupied) / of_nat (length occupied)))
      else if tie_mode = ''dense'' then Inr (of_nat current_rank)
      else if tie_mode = ''min'' then
        (if occupied = [] then Inl (ValueError ''min() arg is an empty sequence'')
         else Inr (of_nat (fold min (tl occupied) (hd occupied))))
      else if tie_mode = ''max'' then
        (if occupied = [] then Inl (ValueError ''max() arg is an empty sequence'')
         else Inr (of_nat (fold max (tl occupied) (hd occupied))))
      else Inl (ValueError tie_mode))"

fun rank_loop ::
  "string \<Rightarrow> (int \<times> int, string list) dict \<Rightarrow> (int \<times> int) list \<Rightarrow>
   (string, rat) dict \<Rightarrow> nat \<Rightarrow> error + (string, rat) dict" where
  "rank_loop tie_mode groups [] rank_best current_rank = Inr rank_best"
| "rank_loop tie_mode groups (key # keys) rank_best current_rank =
     (let names = getitem groups key;
          k = length names;
          occupied = [current_rank ..< current_rank + k]
      in if k = 1 then
           rank_loop tie_mode groups keys
             (setitem (names ! 0) (of_nat current_rank) rank_best) (current_rank + 1)
         else
           (case tie_value tie_mode occupied current_rank of
              Inl e \<Rightarrow> Inl e
            | Inr val \<Rightarrow>
                rank_loop tie_mode groups keys
                  (fold (\<lambda>n. setitem n val) names rank_best)
                  (current_rank + (if tie_mode = ''dense'' then 1 else k))))"

definition compute_rank_and_borda_with_time ::
  "(string, int) dict \<Rightarrow> (string, int) dict \<Rightarrow> string \<Rightarrow>
   error + ((string, rat) dict \<times> (string, rat) dict)" where
  "compute_rank_and_borda_with_time pts_by_player time_by_player tie_mode =
     (if pts_by_player = [] then Inr ([], [])
      else
        let players = map fst pts_by_player;
            players_sorted = sort_key (player_sort_key pts_by_player time_by_player) players;
            groups = build_groups pts_by_player time_by_player players_sorted;
            keys_sorted = sort_key group_order_key (map fst groups)
        in case rank_loop tie_mode groups keys_sorted [] 1 of
             Inl e \<Rightarrow> Inl e
           | Inr rank_best \<Rightarrow>
               let N = length pts_by_player
               in Inr (rank_best, map (\<lambda>(p, r). (p, of_nat N - r + 1)) rank_best))"

text \<open>Reading one player's rank and Borda points out of the ranker's result.\<close>

definition rank_lookup ::
  "error + ((string, rat) dict \<times> (string, rat) dict) \<Rightarrow> string \<Rightarrow> rat option" where
  "rank_lookup res p = (case res of Inl e \<Rightarrow> None | Inr (rank_best, borda) \<Rightarrow> map_of rank_best p)"

definition borda_lookup ::
  "error + ((string, rat) dict \<times> (string, rat) dict) \<Rightarrow> string \<Rightarrow> rat option" where
  "borda_lookup res p = (case res of Inl e \<Rightarrow> None | Inr (rank_best, borda) \<Rightarrow> map_of borda p)"

text \<open>The three-player scenario: A 5000 points in 60s, B 5000 in 60s, C 4000 in 90s.\<close>

definition scenario_pts :: "(string, int) dict" where
  "scenario_pts = [(''A'', 5000), (''B'', 5000), (''C'', 4000)]"

definition scenario_time :: "(string, int) dict" where
  "scenario_time = [(''A'', 60), (''B'', 60), (''C'', 90)]"

section \<open>Notions used to state the ranker's properties\<close>

definition valid_mode :: "string \<Rightarrow> bool" where
  "valid_mode tie_mode = (tie_mode \<in> {''average'', ''dense'', ''min'', ''max''})"

text \<open>
  The tie groups in the order in which the loop of the ranker visits them: for every key of
  \<open>keys_sorted\<close> the list \<open>groups[key]\<close>.
\<close>

definition tie_groups :: "(string, int) dict \<Rightarrow> (string, int) dict \<Rightarrow> string list list" where
  "tie_groups pts_by_player time_by_player =
     (let players_sorted =
            sort_key (player_sort_key pts_by_player time_by_player) (map fst pts_by_player);
          groups = build_groups pts_by_player time_by_player players_sorted
      in map (getitem groups) (sort_key group_order_key (map fst groups)))"

text \<open>
  What one pass of the loop does with a group of \<open>k\<close> names when the running rank is
  \<open>current_rank\<close>: the rank written for its members and the increment of the running rank.
\<close>

definition group_value :: "string \<Rightarrow> nat \<Rightarrow> nat \<Rightarrow> rat" where
  "group_value tie_mode current_rank k =
     (if k = 1 then of_nat current_rank
      else if tie_mode = ''average'' then of_nat current_rank + (of_nat k - 1) / 2
      else if tie_mode = ''max'' then of_nat (current_rank + k - 1)
      else of_nat current_rank)"

definition group_step :: "string \<Rightarrow> nat \<Rightarrow> nat" where
  "group_step tie_mode k = (if k = 1 then 1 else if tie_mode = ''dense'' then 1 else k)"

fun assigned :: "string \<Rightarrow> string list list \<Rightarrow> nat \<Rightarrow> (string, rat) dict" where
  "assigned tie_mode [] current_rank = []"
| "assigned tie_mode (names # gl) current_rank =
     map (\<lambda>n. (n, group_value tie_mode current_rank (length names))) names
     @ assigned tie_mode gl (current_rank + group_step tie_mode (length names))"

text \<open>Names for the ranker's intermediate values \<open>players_sorted\<close> and \<open>keys_sorted\<close>.\<close>

definition players_sorted_of :: "(string, int) dict \<Rightarrow> (string, int) dict \<Rightarrow> string list" where
  "players_sorted_of pts tm = sort_key (player_sort_key pts tm) (map fst pts)"

definition keys_sorted_of :: "(string, int) dict \<Rightarrow> (string, int) dict \<Rightarrow> (int \<times> int) list" where
  "keys_sorted_of pts tm =
     sort_key group_order_key (map fst (build_groups pts tm (players_sorted_of pts tm)))"

text \<open>The sum of the Borda points of a result, over the players of the Borda dictionary.\<close>

definition borda_total ::
  "error + ((string, rat) dict \<times> (string, rat) dict) \<Rightarrow> rat option" where
  "borda_total res =
     (case res of Inl e \<Rightarrow> None | Inr (rank_best, borda) \<Rightarrow> Some (sum_list (map snd borda)))"

section \<open>Entries and the deadline filter\<close>

record Entry =
  week_label :: string
  map_index :: nat
  map_url :: string
  map_token :: string
  map_name :: string
  rule_text :: string
  player :: string
  total_pts :: int
  total_time :: int
  played_at_epoch :: "int option"

text \<open>
  \<open>filter_entries_by_deadlines\<close>: the loop appends the kept entries to \<open>out\<close> in input
  order; \<open>deadlines_epoch_by_week.get(e.week_label)\<close> is \<open>None\<close> for a week without deadline.
\<close>

fun filter_entries_by_deadlines :: "Entry list \<Rightarrow> (string, int) dict \<Rightarrow> bool \<Rightarrow> Entry list" where
  "filter_entries_by_deadlines [] deadlines_epoch_by_week keep_missing_time = []"
| "filter_entries_by_deadlines (e # entries) deadlines_epoch_by_week keep_missing_time =
     (case map_of deadlines_epoch_by_week (week_label e) of
        None \<Rightarrow> e # filter_entries_by_deadlines entries deadlines_epoch_by_week keep_missing_time
      | Some dl \<Rightarrow>
          (case played_at_epoch e of
             None \<Rightarrow>
               (if keep_missing_time
                then e # filter_entries_by_deadlines entries deadlines_epoch_by_week keep_missing_time
                else filter_entries_by_deadlines entries deadlines_epoch_by_week keep_missing_time)
           | Some t \<Rightarrow>
               (if t \<le> dl
                then e # filter_entries_by_deadlines entries deadlines_epoch_by_week keep_missing_time
                else filter_entries_by_deadlines entries deadlines_epoch_by_week keep_missing_time)))"

text \<open>
  The filter policy in the words of the specification: kept unconditionally without a
  configured deadline; with unknown play time kept iff \<open>keepMissingTime\<close>; otherwise kept
  iff \<open>playedAtEpoch \<le> deadline\<close>.
\<close>

definition deadline_policy :: "(string, int) dict \<Rightarrow> bool \<Rightarrow> Entry \<Rightarrow> bool" where
  "deadline_policy deadlines keepMissingTime e =
     (case map_of deadlines (week_label e) of
        None \<Rightarrow> True
      | Some deadline \<Rightarrow>
          (case played_at_epoch e of
             None \<Rightarrow> keepMissingTime
           | Some playedAtEpoch \<Rightarrow> playedAtEpoch \<le> deadline))"

section \<open>Raw leaderboard records\<close>

text \<open>
  The payloads come from \<open>r.json()\<close>. Numbers are Python ints or finite floats; a finite
  float is the rational it denotes (the non-standard literals \<open>NaN\<close> and \<open>Infinity\<close> are
  outside the model). Strings are byte strings: the whitespace of \<open>str.strip\<close>, the digits
  of \<open>str.isdigit\<close> and of \<open>\d\<close>, and \<open>str.lower\<close> are the ASCII ones.
\<close>

datatype json =
    JNull
  | JBool bool
  | JInt int
  | JFloat rat
  | JStr string
  | JList "json list"
  | JDict "(string \<times> json) list"

text \<open>\<open>x[key]\<close> with a string key: \<open>None\<close> stands for the \<open>KeyError\<close> or \<open>TypeError\<close>.\<close>

definition subscript :: "json \<Rightarrow> string \<Rightarrow> json option" where
  "subscript x key = (case x of JDict kvs \<Rightarrow> map_of kvs key | _ \<Rightarrow> None)"

text \<open>\<open>x.get(key)\<close>: \<open>None\<close> stands for the \<open>AttributeError\<close> on a value that is no dict.\<close>

definition py_get :: "json \<Rightarrow> string \<Rightarrow> json option" where
  "py_get x key =
     (case x of
        JDict kvs \<Rightarrow> Some (case map_of kvs key of Some v \<Rightarrow> v | None \<Rightarrow> JNull)
      | _ \<Rightarrow> None)"

definition is_space :: "char \<Rightarrow> bool" where
  "is_space c = (let n = of_char c :: nat in (9 \<le> n \<and> n \<le> 13) \<or> (28 \<le> n \<and> n \<le> 32))"

definition strip :: "string \<Rightarrow> string" where
  "strip s = rev (dropWhile is_space (rev (dropWhile is_space s)))"

definition is_digit :: "char \<Rightarrow> bool" where
  "is_digit c = (let n = of_char c :: nat in 48 \<le> n \<and> n \<le> 57)"

definition isdigit :: "string \<Rightarrow> bool" where
  "isdigit s = (s \<noteq> [] \<and> list_all is_digit s)"

text \<open>\<open>int(s)\<close> on a string of decimal digits.\<close>

definition int_of_digits :: "string \<Rightarrow> int" where
  "int_of_digits s = foldl (\<lambda>a c. 10 * a + (int (of_char c) - 48)) 0 s"

text \<open>\<open>int(x)\<close> on a float truncates towards zero.\<close>

definition int_of_float :: "rat \<Rightarrow> int" where
  "int_of_float r = (if 0 \<le> r then \<lfloor>r\<rfloor> else \<lceil>r\<rceil>)"

fun parse_int_maybe :: "json \<Rightarrow> int option" where
  "parse_int_maybe JNull = None"
| "parse_int_maybe (JBool b) = None"
| "parse_int_maybe (JInt x) = Some x"
| "parse_int_maybe (JFloat x) = Some (int_of_float x)"
| "parse_int_maybe (JStr x) =
     (let s = filter (\<lambda>c. c \<noteq> CHR '','') (strip x)
      in if isdigit s then Some (int_of_digits s) else None)"
| "parse_int_maybe (JList xs) = None"
| "parse_int_maybe (JDict kvs) = None"

text \<open>
  \<open>player_name_from_item\<close>: every exception of the nested lookup is caught and leads to
  the final \<open>return "UNKNOWN"\<close>.
\<close>

definition player_name_from_item :: "json \<Rightarrow> string" where
  "player_name_from_item item =
     (case subscript item ''game'' of
        None \<Rightarrow> ''UNKNOWN''
      | Some game \<Rightarrow>
          (case subscript game ''player'' of
             None \<Rightarrow> ''UNKNOWN''
           | Some pl \<Rightarrow>
               (case py_get pl ''nick'' of
                  Some (JStr nick) \<Rightarrow> (if strip nick \<noteq> [] then strip nick else ''UNKNOWN'')
                | _ \<Rightarrow> ''UNKNOWN'')))"

definition item_player :: "json \<Rightarrow> json option" where
  "item_player item =
     (case subscript item ''game'' of None \<Rightarrow> None | Some game \<Rightarrow> subscript game ''player'')"

definition total_points_from_item :: "json \<Rightarrow> int" where
  "total_points_from_item item =
     (case (case item_player item of
              None \<Rightarrow> None
            | Some pl \<Rightarrow>
                (case subscript pl ''totalScore'' of
                   None \<Rightarrow> None
                 | Some ts \<Rightarrow> (case py_get ts ''amount'' of None \<Rightarrow> None | Some amt \<Rightarrow> parse_int_maybe amt)))
      of Some v \<Rightarrow> v
       | None \<Rightarrow>
           (case (case item_player item of
                    None \<Rightarrow> None
                  | Some pl \<Rightarrow>
                      (case py_get pl ''totalScoreInPoints'' of
                         None \<Rightarrow> None
                       | Some x \<Rightarrow> parse_int_maybe x))
            of Some v \<Rightarrow> v
             | None \<Rightarrow> 0))"

definition total_time_from_item :: "json \<Rightarrow> int" where
  "total_time_from_item item =
     (case (case item_player item of
              None \<Rightarrow> None
            | Some pl \<Rightarrow>
                (case py_get pl ''totalTime'' of None \<Rightarrow> None | Some x \<Rightarrow> parse_int_maybe x))
      of Some v \<Rightarrow> v
       | None \<Rightarrow> 10 ^ 12)"

section \<open>Played-at extraction\<close>

text \<open>\<open>EPOCH_RE = ^\d{10,13}$\<close> and \<open>ISO_RE = ^\d{4}-\d{2}-\d{2}\<close>, matched on a stripped string.\<close>

definition epoch_re_match :: "string \<Rightarrow> bool" where
  "epoch_re_match s = (10 \<le> length s \<and> length s \<le> 13 \<and> list_all is_digit s)"

definition iso_re_match :: "string \<Rightarrow> bool" where
  "iso_re_match s =
     (10 \<le> length s
      \<and> list_all is_digit (take 4 s) \<and> s ! 4 = CHR ''-''
      \<and> list_all is_digit (take 2 (drop 5 s)) \<and> s ! 7 = CHR ''-''
      \<and> list_all is_digit (take 2 (drop 8 s)))"

definition epoch_of_number :: "int \<Rightarrow> int option" where
  "epoch_of_number x =
     (if x > 10000000000 then Some (x div 1000)
      else if x > 1000000000 then Some x
      else None)"

text \<open>
  \<open>_try_parse_epoch\<close>. The parameter \<open>parse_iso\<close> stands for the pandas call of the ISO branch:
  \<open>pd.to_datetime(s.replace("Z", "+00:00"), utc=True)\<close> turned into epoch seconds, \<open>None\<close>
  when the result is \<open>NaT\<close> or the call raises.
\<close>

fun try_parse_epoch :: "(string \<Rightarrow> int option) \<Rightarrow> json \<Rightarrow> int option" where
  "try_parse_epoch parse_iso JNull = None"
| "try_parse_epoch parse_iso (JBool b) = None"
| "try_parse_epoch parse_iso (JInt x) = epoch_of_number x"
| "try_parse_epoch parse_iso (JFloat x) = epoch_of_number (int_of_float x)"
| "try_parse_epoch parse_iso (JStr v) =
     (let s = strip v
      in case (if epoch_re_match s then epoch_of_number (int_of_digits s) else None) of
           Some ep \<Rightarrow> Some ep
         | None \<Rightarrow> (if iso_re_match s then parse_iso s else None))"
| "try_parse_epoch parse_iso (JList xs) = None"
| "try_parse_epoch parse_iso (JDict kvs) = None"

text \<open>\<open>_iter_all_dicts\<close>: every dict of the payload, the outer one before the nested ones.\<close>

fun iter_all_dicts :: "json \<Rightarrow> (string \<times> json) list list" where
  "iter_all_dicts (JDict kvs) = kvs # concat (map (\<lambda>kv. iter_all_dicts (snd kv)) kvs)"
| "iter_all_dicts (JList xs) = concat (map iter_all_dicts xs)"
| "iter_all_dicts JNull = []"
| "iter_all_dicts (JBool b) = []"
| "iter_all_dicts (JInt x) = []"
| "iter_all_dicts (JFloat x) = []"
| "iter_all_dicts (JStr x) = []"

definition lower_char :: "char \<Rightarrow> char" where
  "lower_char c = (let n = of_char c :: nat in if 65 \<le> n \<and> n \<le> 90 then char_of (n + 32) else c)"

definition lower :: "string \<Rightarrow> string" where
  "lower s = map lower_char s"

text \<open>\<open>x in lk\<close> on strings.\<close>

fun contains :: "string \<Rightarrow> string \<Rightarrow> bool" where
  "contains x [] = (x = [])"
| "contains x (c # cs) = (take (length x) (c # cs) = x \<or> contains x cs)"

definition candidate_keys :: "string list" where
  "candidate_keys =
     [''createdat'', ''created'', ''updatedat'', ''updated'',
      ''finishedat'', ''endedat'', ''endtime'', ''completedat'', ''completed'',
      ''startedat'', ''starttime'',
      ''timestamp'', ''time'']"

definition key_is_candidate :: "string \<Rightarrow> bool" where
  "key_is_candidate k =
     (let lk = lower k
      in lk \<in> set candidate_keys
         \<or> list_ex (\<lambda>x. contains x lk)
              [''created'', ''finished'', ''ended'', ''completed'', ''start'', ''end'', ''updated''])"

definition extract_step :: "(string \<Rightarrow> int option) \<Rightarrow> int option \<Rightarrow> string \<times> json \<Rightarrow> int option" where
  "extract_step parse_iso best kv =
     (if key_is_candidate (fst kv) then
        (case try_parse_epoch parse_iso (snd kv) of
           None \<Rightarrow> best
         | Some ep \<Rightarrow>
             (case best of
                None \<Rightarrow> Some ep
              | Some b \<Rightarrow> (if ep > b then Some ep else best)))
      else best)"

definition extract_played_at_epoch :: "(string \<Rightarrow> int option) \<Rightarrow> json \<Rightarrow> int option" where
  "extract_played_at_epoch parse_iso game_payload =
     foldl (extract_step parse_iso) None (concat (iter_all_dicts game_payload))"

text \<open>
  \<open>fetch_game_details_for_played_at\<close>. The parameter \<open>http\<close> stands for \<open>http_get_json\<close> on
  the session: the payload of a URL, \<open>None\<close> when the request raises.
\<close>

fun try_endpoints ::
  "(string \<Rightarrow> json option) \<Rightarrow> (string \<Rightarrow> int option) \<Rightarrow> string list \<Rightarrow> int option" where
  "try_endpoints http parse_iso [] = None"
| "try_endpoints http parse_iso (url # endpoints) =
     (case http url of
        None \<Rightarrow> try_endpoints http parse_iso endpoints
      | Some payload \<Rightarrow>
          (case extract_played_at_epoch parse_iso payload of
             Some ep \<Rightarrow> Some ep
           | None \<Rightarrow> try_endpoints http parse_iso endpoints))"

definition fetch_game_details_for_played_at ::
  "(string \<Rightarrow> json option) \<Rightarrow> (string \<Rightarrow> int option) \<Rightarrow> string \<Rightarrow> int option" where
  "fetch_game_details_for_played_at http parse_iso game_token =
     try_endpoints http parse_iso
       [''https://www.geoguessr.com/api/v3/games/'' @ game_token,
        ''https://www.geoguessr.com/api/v3/results/'' @ game_token]"

section \<open>Building the entries of a week (\<open>build_week_entries\<close>)\<close>

text \<open>
  What the run has read for one map URL of a week: the URL, its token, the map name and rule
  text taken from the first item (display metadata, copied into every entry of the map) and
  the leaderboard items that \<open>fetch_highscores_items\<close> returned.
\<close>

record map_input =
  mi_url :: string
  mi_token :: string
  mi_map_name :: string
  mi_rule_text :: string
  mi_items :: "json list"

record WeekSpec =
  label :: string
  urls :: "map_input list"
  deadline :: "string option"

record build_state =
  out_entries :: "Entry list"
  has_any_played_at :: bool
  played_at_cache :: "(string, int option) dict"

definition has_game :: "json \<Rightarrow> bool" where
  "has_game it = (case it of JDict kvs \<Rightarrow> map_of kvs ''game'' \<noteq> None | _ \<Rightarrow> False)"

text \<open>\<open>it["game"].get("token")\<close>, kept when it is a non-empty string.\<close>

definition game_token_of :: "json \<Rightarrow> string option" where
  "game_token_of it =
     (case subscript it ''game'' of
        None \<Rightarrow> None
      | Some game \<Rightarrow>
          (case py_get game ''token'' of
             Some (JStr t) \<Rightarrow> (if t \<noteq> [] then Some t else None)
           | _ \<Rightarrow> None))"

text \<open>The lookup of \<open>played_at\<close> for one item, with the cache of the week.\<close>

definition lookup_played_at ::
  "(string \<Rightarrow> json option) \<Rightarrow> (string \<Rightarrow> int option) \<Rightarrow> bool \<Rightarrow> json \<Rightarrow>
   (string, int option) dict \<Rightarrow> int option \<times> (string, int option) dict" where
  "lookup_played_at http parse_iso fetch_played_at it cache =
     (if fetch_played_at then
        (case game_token_of it of
           None \<Rightarrow> (None, cache)
         | Some game_token \<Rightarrow>
             (case map_of cache game_token of
                Some played_at \<Rightarrow> (played_at, cache)
              | None \<Rightarrow>
                  (let played_at = fetch_game_details_for_played_at http parse_iso game_token
                   in (played_at, setitem game_token played_at cache))))
      else (None, cache))"

text \<open>The body of \<open>for it in items\<close>.\<close>

definition item_step ::
  "(string \<Rightarrow> json option) \<Rightarrow> (string \<Rightarrow> int option) \<Rightarrow> bool \<Rightarrow> string \<Rightarrow> nat \<Rightarrow> map_input \<Rightarrow>
   build_state \<Rightarrow> json \<Rightarrow> build_state" where
  "item_step http parse_iso fetch_played_at wlabel map_idx m st it =
     (if \<not> has_game it then st
      else
        let name = player_name_from_item it
        in if name = ''UNKNOWN'' then st
           else
             let pts = total_points_from_item it;
                 ttime = total_time_from_item it;
                 (played_at, cache) =
                   lookup_played_at http parse_iso fetch_played_at it (played_at_cache st)
             in \<lparr> out_entries = out_entries st @
                    [\<lparr> week_label = wlabel, map_index = map_idx, map_url = mi_url m,
                       map_token = mi_token m, map_name = mi_map_name m,
                       rule_text = mi_rule_text m, player = name, total_pts = pts,
                       total_time = ttime, played_at_epoch = played_at \<rparr>],
                  has_any_played_at = (has_any_played_at st \<or> played_at \<noteq> None),
                  played_at_cache = cache \<rparr>)"

text \<open>\<open>for map_idx, url in enumerate(urls, start=1)\<close>\<close>

fun map_loop ::
  "(string \<Rightarrow> json option) \<Rightarrow> (string \<Rightarrow> int option) \<Rightarrow> bool \<Rightarrow> string \<Rightarrow> nat \<Rightarrow>
   map_input list \<Rightarrow> build_state \<Rightarrow> build_state" where
  "map_loop http parse_iso fetch_played_at wlabel map_idx [] st = st"
| "map_loop http parse_iso fetch_played_at wlabel map_idx (m # ms) st =
     map_loop http parse_iso fetch_played_at wlabel (map_idx + 1) ms
       (foldl (item_step http parse_iso fetch_played_at wlabel map_idx m) st (mi_items m))"

definition build_week_entries ::
  "(string \<Rightarrow> json option) \<Rightarrow> (string \<Rightarrow> int option) \<Rightarrow> WeekSpec \<Rightarrow> bool \<Rightarrow>
   error + (Entry list \<times> bool)" where
  "build_week_entries http parse_iso week fetch_played_at =
     (if urls week = [] then Inl (RuntimeError ''urls file is empty'')
      else
        let st = map_loop http parse_iso fetch_played_at (label week) 1 (urls week)
                   \<lparr> out_entries = [], has_any_played_at = False, played_at_cache = [] \<rparr>
        in Inr (out_entries st, has_any_played_at st))"

text \<open>A numeric JSON value \<open>v\<close> with \<open>0 < v \<le> 1,000,000,000\<close>.\<close>

definition small_number :: "json \<Rightarrow> bool" where
  "small_number v =
     (case v of
        JInt x \<Rightarrow> 0 < x \<and> x \<le> 1000000000
      | JFloat x \<Rightarrow> 0 < x \<and> x \<le> 1000000000
      | _ \<Rightarrow> False)"

text \<open>A raw item whose nested nick is a string, for the examples.\<close>

definition item_of :: "string \<Rightarrow> string \<Rightarrow> json \<Rightarrow> json" where
  "item_of nick game_token amount =
     JDict [(''game'', JDict [(''token'', JStr game_token),
        (''player'', JDict [(''nick'', JStr nick),
           (''totalScore'', JDict [(''amount'', amount)]), (''totalTime'', JInt 300)])])]"

(*DEFS_END*)

section \<open>Dictionaries and the tie value\<close>

lemma setitem_fresh: "k \<notin> fst ` set d \<Longrightarrow> setitem k v d = d @ [(k, v)]"
  unfolding setitem_def by (induction d) auto

lemma fold_setitem_fresh:
  "distinct ns \<Longrightarrow> set ns \<inter> fst ` set d = {} \<Longrightarrow>
   fold (\<lambda>n. setitem n v) ns d = d @ map (\<lambda>n. (n, v)) ns"
proof (induction ns arbitrary: d)
  case Nil
  then show ?case by simp
next
  case (Cons n ns)
  have fresh: "n \<notin> fst ` set d" using Cons.prems(2) by auto
  have "set ns \<inter> fst ` set (d @ [(n, v)]) = {}"
    using Cons.prems by auto
  with Cons.IH [of "d @ [(n, v)]"] Cons.prems(1)
  show ?case by (simp add: setitem_fresh [OF fresh])
qed

lemma sum_list_upt_twice: "2 * sum_list [c ..< c + k] = 2 * k * c + k * (k - 1)"
proof (induction k)
  case 0
  then show ?case by simp
next
  case (Suc k)
  then show ?case by (cases k) (simp_all add: algebra_simps)
qed

lemma fold_min_upt: "fold min [Suc c ..< c + k] c = c"
  by (induction k) auto

lemma fold_max_upt: "0 < k \<Longrightarrow> fold max [Suc c ..< c + k] c = c + k - 1"
proof (induction k)
  case 0
  then show ?case by simp
next
  case (Suc k)
  then show ?case by (cases "k = 0") auto
qed

lemma upt_hd_tl: "0 < k \<Longrightarrow> hd [c ..< c + k] = c \<and> tl [c ..< c + k] = [Suc c ..< c + k]"
  by (simp add: upt_conv_Cons)

lemma tie_value_valid:
  assumes "valid_mode m" "2 \<le> k"
  shows "tie_value m [c ..< c + k] c = Inr (group_value m c k)"
proof -
  from assms(2) have k0: "0 < k" and k1: "k \<noteq> 1" by auto
  have ne: "[c ..< c + k] \<noteq> []" using k0 by simp
  have avg: "(of_nat (sum_list [c ..< c + k]) :: rat) / of_nat k = of_nat c + (of_nat k - 1) / 2"
  proof -
    have "(of_nat (2 * sum_list [c ..< c + k]) :: rat) = of_nat (2 * k * c + k * (k - 1))"
      by (simp only: sum_list_upt_twice)
    moreover have "(of_nat (k - 1) :: rat) = of_nat k - 1" using k0 by (simp add: of_nat_diff)
    ultimately have "2 * (of_nat (sum_list [c ..< c + k]) :: rat) = 2 * of_nat k * of_nat c + of_nat k * (of_nat k - 1)"
      by simp
    then show ?thesis using k0 by (simp add: field_simps)
  qed
  show ?thesis
    using assms(1) k1 ne avg upt_hd_tl [OF k0, of c] fold_min_upt [of c k] fold_max_upt [OF k0, of c]
    unfolding valid_mode_def tie_value_def group_value_def
    by auto
qed

section \<open>The loop of the ranker\<close>

lemma fst_set_append_map: "fst ` set (d @ map (\<lambda>n. (n, v)) ns) = fst ` set d \<union> set ns"
  by (simp add: image_Un image_image)

lemma rank_loop_assigned:
  assumes "valid_mode m \<or> (\<forall>key \<in> set keys. length (getitem groups key) = 1)"
    and "\<forall>key \<in> set keys. getitem groups key \<noteq> []"
    and "distinct (concat (map (getitem groups) keys))"
    and "set (concat (map (getitem groups) keys)) \<inter> fst ` set rb = {}"
  shows "rank_loop m groups keys rb c = Inr (rb @ assigned m (map (getitem groups) keys) c)"
  using assms
proof (induction keys arbitrary: rb c)
  case Nil
  then show ?case by simp
next
  case (Cons key keys)
  let ?names = "getitem groups key"
  let ?k = "length ?names"
  let ?v = "group_value m c ?k"
  have ne: "?names \<noteq> []" using Cons.prems(2) by simp
  have dn: "distinct ?names" using Cons.prems(3) by simp
  have fresh: "set ?names \<inter> fst ` set rb = {}" using Cons.prems(4) by auto
  let ?rb' = "rb @ map (\<lambda>n. (n, ?v)) ?names"
  have p1: "valid_mode m \<or> (\<forall>key \<in> set keys. length (getitem groups key) = 1)"
    using Cons.prems(1) by auto
  have p2: "\<forall>key \<in> set keys. getitem groups key \<noteq> []" using Cons.prems(2) by simp
  have p3: "distinct (concat (map (getitem groups) keys))" using Cons.prems(3) by simp
  have a: "set (concat (map (getitem groups) keys)) \<inter> fst ` set rb = {}"
    using Cons.prems(4) by auto
  have b: "set (concat (map (getitem groups) keys)) \<inter> set ?names = {}"
    using Cons.prems(3) by auto
  have p4: "set (concat (map (getitem groups) keys)) \<inter> fst ` set ?rb' = {}"
    unfolding fst_set_append_map using a b by blast
  note IH = Cons.IH [OF p1 p2 p3 p4]
  show ?case
  proof (cases "?k = 1")
    case True
    then obtain n where n: "?names = [n]" by (cases ?names) auto
    have "n \<notin> fst ` set rb" using fresh n by auto
    then have "setitem n (of_nat c) rb = rb @ [(n, of_nat c)]" by (rule setitem_fresh)
    then show ?thesis
      using IH n True by (simp add: Let_def group_value_def group_step_def)
  next
    case False
    moreover have "?k \<noteq> 0" using ne by simp
    ultimately have k2: "2 \<le> ?k" by arith
    have vm: "valid_mode m" using Cons.prems(1) False by auto
    have tv: "tie_value m [c ..< c + ?k] c = Inr ?v" by (rule tie_value_valid [OF vm k2])
    have fs: "fold (\<lambda>n. setitem n ?v) ?names rb = ?rb'"
      by (rule fold_setitem_fresh [OF dn fresh])
    have st: "c + (if m = ''dense'' then 1 else ?k) = c + group_step m ?k"
      using False by (simp add: group_step_def)
    show ?thesis
      using IH False tv fs st by (simp add: Let_def)
  qed
qed

section \<open>The tie groups\<close>

lemma map_of_setdefault_append:
  "map_of (setdefault_append k p g) k' =
     (if k' = k then Some ((case map_of g k of None \<Rightarrow> [] | Some ns \<Rightarrow> ns) @ [p]) else map_of g k')"
  unfolding setdefault_append_def setitem_def
  by (auto simp: map_add_def update_conv' split: option.splits)

lemma distinct_setdefault_append:
  "distinct (map fst g) \<Longrightarrow> distinct (map fst (setdefault_append k p g))"
  unfolding setdefault_append_def setitem_def
  by (auto simp: distinct_update map_of_eq_None_iff split: option.splits)

lemma map_of_grouping:
  "map_of (foldl (\<lambda>g p. setdefault_append (f p) p g) [] ps) k =
     (if k \<in> f ` set ps then Some (filter (\<lambda>p. f p = k) ps) else None)"
proof (induction ps arbitrary: k rule: rev_induct)
  case Nil
  then show ?case by simp
next
  case (snoc p ps)
  show ?case
  proof (cases "k = f p")
    case True
    have e: "filter (\<lambda>q. f q = f p) ps = []" if a: "f p \<notin> f ` set ps"
    proof -
      have "f q \<noteq> f p" if "q \<in> set ps" for q
        using a that by (metis imageI)
      then show ?thesis by (simp add: filter_empty_conv)
    qed
    show ?thesis
      using snoc [of "f p"] True e
      by (auto simp: map_of_setdefault_append split: option.splits)
  next
    case False
    then show ?thesis
      using snoc [of k] by (auto simp: map_of_setdefault_append)
  qed
qed

lemma distinct_grouping:
  "distinct (map fst (foldl (\<lambda>g p. setdefault_append (f p) p g) [] ps))"
  by (induction ps rule: rev_induct) (simp_all add: distinct_setdefault_append)

lemma keys_grouping:
  "fst ` set (foldl (\<lambda>g p. setdefault_append (f p) p g) [] ps) = f ` set ps"
proof -
  let ?g = "foldl (\<lambda>g p. setdefault_append (f p) p g) [] ps"
  have "dom (map_of ?g) = f ` set ps"
    by (auto simp: dom_def map_of_grouping)
  then show ?thesis by (simp add: dom_map_of_conv_image_fst)
qed

lemma getitem_grouping:
  "k \<in> f ` set ps \<Longrightarrow>
   getitem (foldl (\<lambda>g p. setdefault_append (f p) p g) [] ps) k = filter (\<lambda>p. f p = k) ps"
  by (simp add: getitem_def map_of_grouping)

lemma set_players_sorted: "set (players_sorted_of pts tm) = fst ` set pts"
  by (simp add: players_sorted_of_def)

lemma distinct_players_sorted:
  "distinct (map fst pts) \<Longrightarrow> distinct (players_sorted_of pts tm)"
  by (simp add: players_sorted_of_def)

lemma set_keys_sorted: "set (keys_sorted_of pts tm) = group_key pts tm ` fst ` set pts"
  by (simp add: keys_sorted_of_def build_groups_def keys_grouping set_players_sorted)

lemma distinct_keys_sorted: "distinct (keys_sorted_of pts tm)"
  by (simp add: keys_sorted_of_def build_groups_def distinct_grouping)

lemma sorted_keys_sorted: "sorted (map group_order_key (keys_sorted_of pts tm))"
  by (simp add: keys_sorted_of_def)

lemma tie_groups_eq:
  "tie_groups pts tm =
     map (\<lambda>k. filter (\<lambda>p. group_key pts tm p = k) (players_sorted_of pts tm)) (keys_sorted_of pts tm)"
proof -
  let ?ps = "players_sorted_of pts tm"
  let ?g = "build_groups pts tm ?ps"
  have "map (getitem ?g) (keys_sorted_of pts tm)
      = map (\<lambda>k. filter (\<lambda>p. group_key pts tm p = k) ?ps) (keys_sorted_of pts tm)"
  proof (rule map_cong [OF refl])
    fix k assume "k \<in> set (keys_sorted_of pts tm)"
    then have "k \<in> group_key pts tm ` set ?ps"
      by (simp add: set_keys_sorted set_players_sorted)
    then show "getitem ?g k = filter (\<lambda>p. group_key pts tm p = k) ?ps"
      unfolding build_groups_def by (rule getitem_grouping)
  qed
  then show ?thesis
    by (simp add: tie_groups_def Let_def players_sorted_of_def keys_sorted_of_def)
qed

lemma distinct_concat_filters:
  "distinct ks \<Longrightarrow> distinct ps \<Longrightarrow>
   distinct (concat (map (\<lambda>k. filter (\<lambda>p. f p = k) ps) ks))"
  by (induction ks) auto

lemma set_concat_filters:
  "set (concat (map (\<lambda>k. filter (\<lambda>p. f p = k) ps) ks)) = {p \<in> set ps. f p \<in> set ks}"
  by (induction ks) auto

lemma distinct_tie_groups:
  "distinct (map fst pts) \<Longrightarrow> distinct (concat (tie_groups pts tm))"
  unfolding tie_groups_eq
  by (rule distinct_concat_filters [OF distinct_keys_sorted distinct_players_sorted])

lemma set_tie_groups: "set (concat (tie_groups pts tm)) = fst ` set pts"
  unfolding tie_groups_eq set_concat_filters
  by (auto simp: set_keys_sorted set_players_sorted)

lemma length_tie_groups:
  assumes "distinct (map fst pts)"
  shows "length (concat (tie_groups pts tm)) = length pts"
proof -
  have "length (concat (tie_groups pts tm)) = card (set (concat (tie_groups pts tm)))"
    by (rule distinct_card [OF distinct_tie_groups [OF assms], symmetric])
  also have "\<dots> = card (set (map fst pts))"
    by (simp only: set_tie_groups set_map)
  also have "\<dots> = length (map fst pts)" by (rule distinct_card [OF assms])
  finally show ?thesis by simp
qed

lemma tie_groups_nonempty:
  assumes "names \<in> set (tie_groups pts tm)"
  shows "names \<noteq> []"
proof -
  from assms obtain k where k: "k \<in> set (keys_sorted_of pts tm)"
    and n: "names = filter (\<lambda>p. group_key pts tm p = k) (players_sorted_of pts tm)"
    unfolding tie_groups_eq by auto
  from k obtain p where "p \<in> set (players_sorted_of pts tm)" "group_key pts tm p = k"
    unfolding set_keys_sorted set_players_sorted by auto
  then have "p \<in> set names" using n by simp
  then show ?thesis by auto
qed

lemma length_tie_groups_card:
  "length (tie_groups pts tm) = card (group_key pts tm ` fst ` set pts)"
proof -
  have "length (tie_groups pts tm) = length (keys_sorted_of pts tm)" by (simp add: tie_groups_eq)
  also have "\<dots> = card (set (keys_sorted_of pts tm))"
    using distinct_keys_sorted by (simp add: distinct_card)
  finally show ?thesis by (simp add: set_keys_sorted)
qed

section \<open>The result of the ranker\<close>

lemma ranker_result:
  assumes d: "distinct (map fst pts)" and ne: "pts \<noteq> []"
    and v: "valid_mode m \<or> (\<forall>names \<in> set (tie_groups pts tm). length names = 1)"
  shows "compute_rank_and_borda_with_time pts tm m =
           Inr (assigned m (tie_groups pts tm) 1,
                map (\<lambda>(p, r). (p, of_nat (length pts) - r + 1)) (assigned m (tie_groups pts tm) 1))"
proof -
  let ?ps = "sort_key (player_sort_key pts tm) (map fst pts)"
  let ?g = "build_groups pts tm ?ps"
  let ?ks = "sort_key group_order_key (map fst ?g)"
  have tg: "map (getitem ?g) ?ks = tie_groups pts tm"
    by (simp add: tie_groups_def Let_def)
  have a1: "valid_mode m \<or> (\<forall>key \<in> set ?ks. length (getitem ?g key) = 1)"
    using v unfolding tg [symmetric] by auto
  have a2: "\<forall>key \<in> set ?ks. getitem ?g key \<noteq> []"
  proof
    fix key assume "key \<in> set ?ks"
    then have "getitem ?g key \<in> set (tie_groups pts tm)"
      unfolding tg [symmetric] by simp
    then show "getitem ?g key \<noteq> []" by (rule tie_groups_nonempty)
  qed
  have a3: "distinct (concat (map (getitem ?g) ?ks))"
    unfolding tg by (rule distinct_tie_groups [OF d])
  have a4: "set (concat (map (getitem ?g) ?ks)) \<inter> fst ` set ([] :: (string, rat) dict) = {}"
    by simp
  have "rank_loop m ?g ?ks [] 1 = Inr ([] @ assigned m (map (getitem ?g) ?ks) 1)"
    by (rule rank_loop_assigned [OF a1 a2 a3 a4])
  then have "rank_loop m ?g ?ks [] 1 = Inr (assigned m (tie_groups pts tm) 1)"
    unfolding tg by simp
  then show ?thesis
    using ne by (simp add: compute_rank_and_borda_with_time_def Let_def)
qed

lemma sum_assigned:
  assumes "m = ''average'' \<or> (\<forall>names \<in> set gl. length names = 1)"
  shows "sum_list (map snd (assigned m gl c)) =
           of_nat (length (concat gl)) * of_nat c
           + of_nat (length (concat gl)) * (of_nat (length (concat gl)) - 1) / 2"
  using assms
proof (induction gl arbitrary: c)
  case Nil
  then show ?case by simp
next
  case (Cons names gl)
  let ?k = "length names"
  let ?M = "length (concat gl)"
  have gv: "of_nat ?k * group_value m c ?k = of_nat ?k * of_nat c + of_nat ?k * (of_nat ?k - 1) / 2"
  proof (cases "?k = 1")
    case True
    then show ?thesis by (simp add: group_value_def)
  next
    case False
    then have "m = ''average''" using Cons.prems by auto
    then show ?thesis using False by (simp add: group_value_def algebra_simps)
  qed
  have gs: "group_step m ?k = ?k \<or> ?k = 0"
    using Cons.prems by (auto simp: group_step_def)
  have st: "(of_nat (c + group_step m ?k) :: rat) * of_nat ?M = (of_nat c + of_nat ?k) * of_nat ?M
            \<or> ?k = 0"
    using gs by auto
  have hd: "sum_list (map snd (map (\<lambda>n. (n, group_value m c ?k)) names)) = of_nat ?k * group_value m c ?k"
    by (simp add: comp_def sum_list_triv)
  have p: "m = ''average'' \<or> (\<forall>names \<in> set gl. length names = 1)"
    using Cons.prems by auto
  have IH: "sum_list (map snd (assigned m gl (c + group_step m ?k))) =
           of_nat ?M * of_nat (c + group_step m ?k) + of_nat ?M * (of_nat ?M - 1) / 2"
    by (rule Cons.IH [OF p])
  show ?case
  proof (cases "?k = 0")
    case True
    then have "names = []" by simp
    then show ?thesis using IH Cons.prems by (auto simp: group_step_def)
  next
    case False
    then have s: "group_step m ?k = ?k" using gs by simp
    have "sum_list (map snd (assigned m (names # gl) c))
        = of_nat ?k * group_value m c ?k
          + (of_nat ?M * of_nat (c + ?k) + of_nat ?M * (of_nat ?M - 1) / 2)"
      using IH hd s by simp
    also have "\<dots> = of_nat (?k + ?M) * of_nat c + of_nat (?k + ?M) * (of_nat (?k + ?M) - 1) / 2"
      unfolding gv by (simp add: field_simps)
    finally show ?thesis by simp
  qed
qed

lemma singletons_if_inj:
  assumes d: "distinct (map fst pts)" and i: "inj_on (group_key pts tm) (fst ` set pts)"
    and n: "names \<in> set (tie_groups pts tm)"
  shows "length names = 1"
proof -
  let ?ps = "players_sorted_of pts tm"
  from n obtain k where k: "k \<in> set (keys_sorted_of pts tm)"
    and nm: "names = filter (\<lambda>p. group_key pts tm p = k) ?ps"
    unfolding tie_groups_eq by auto
  from k obtain p where p: "p \<in> fst ` set pts" "group_key pts tm p = k"
    unfolding set_keys_sorted by auto
  have "set names = {p}"
  proof
    show "set names \<subseteq> {p}"
    proof
      fix q assume "q \<in> set names"
      then have "q \<in> fst ` set pts" "group_key pts tm q = group_key pts tm p"
        using nm p by (auto simp: set_players_sorted)
      then have "q = p" using i p(1) by (auto dest: inj_onD)
      then show "q \<in> {p}" by simp
    qed
    show "{p} \<subseteq> set names" using nm p by (simp add: set_players_sorted)
  qed
  moreover have "distinct names" using nm distinct_players_sorted [OF d] by simp
  ultimately have "length names = card {p}" by (metis distinct_card)
  then show ?thesis by simp
qed

section \<open>Conservation of Borda points\<close>

lemma length_assigned: "length (assigned m gl c) = length (concat gl)"
  by (induction gl arbitrary: c) simp_all

lemma sum_borda_list:
  "sum_list (map snd (map (\<lambda>(p, r). (p, a - r + 1)) (xs :: (string, rat) dict)))
     = of_nat (length xs) * (a + 1) - sum_list (map snd xs)"
  by (induction xs) (auto simp: algebra_simps)

text \<open>
  C1 (amended): for the ranker's input for one map (a dictionary, so one key per distinct
  player, \<open>N = length pts\<close>), the Borda points it returns sum to \<open>N * (N + 1) / 2\<close>
  under tie mode average for every tie structure, and under any tie mode when no two
  players share the same (points, time) pair.
\<close>

theorem borda_conservation:
  assumes d: "distinct (map fst pts)"
    and v: "m = ''average'' \<or> inj_on (group_key pts tm) (fst ` set pts)"
  shows "borda_total (compute_rank_and_borda_with_time pts tm m)
           = Some (of_nat (length pts) * (of_nat (length pts) + 1) / 2)"
proof (cases "pts = []")
  case True
  then show ?thesis
    by (simp add: compute_rank_and_borda_with_time_def borda_total_def)
next
  case False
  let ?gl = "tie_groups pts tm"
  let ?N = "length pts"
  have s: "m = ''average'' \<or> (\<forall>names \<in> set ?gl. length names = 1)"
    using v singletons_if_inj [OF d] by blast
  then have vm: "valid_mode m \<or> (\<forall>names \<in> set ?gl. length names = 1)"
    by (auto simp: valid_mode_def)
  have len: "length (concat ?gl) = ?N" by (rule length_tie_groups [OF d])
  have ranks: "sum_list (map snd (assigned m ?gl 1))
      = of_nat ?N * of_nat 1 + of_nat ?N * (of_nat ?N - 1) / 2"
    using sum_assigned [OF s, of 1] unfolding len .
  have "borda_total (compute_rank_and_borda_with_time pts tm m)
      = Some (of_nat (length (assigned m ?gl 1)) * (of_nat ?N + 1) - sum_list (map snd (assigned m ?gl 1)))"
    unfolding ranker_result [OF d False vm] borda_total_def
    by (simp only: sum.case prod.case sum_borda_list)
  also have "\<dots> = Some (of_nat ?N * (of_nat ?N + 1) / 2)"
    unfolding ranks length_assigned len by (simp add: field_simps)
  finally show ?thesis .
qed

theorem borda_conservation_witness:
  "distinct (map fst scenario_pts)
   \<and> borda_total (compute_rank_and_borda_with_time scenario_pts scenario_time ''average'') = Some 6
   \<and> inj_on (group_key [(''A'', 5000), (''C'', 4000)] scenario_time) (fst ` set [(''A'', 5000), (''C'', 4000)])
   \<and> borda_total (compute_rank_and_borda_with_time [(''A'', 5000), (''C'', 4000)] scenario_time ''max'') = Some 3"
proof -
  have d: "distinct (map fst scenario_pts)" by (simp add: scenario_pts_def)
  have l: "length scenario_pts = 3" by (simp add: scenario_pts_def)
  have d2: "distinct (map fst [(''A'', 5000::int), (''C'', 4000)])" by simp
  have i: "inj_on (group_key [(''A'', 5000), (''C'', 4000)] scenario_time) (fst ` set [(''A'', 5000), (''C'', 4000)])"
    by (simp add: group_key_def getitem_def dict_get_def scenario_time_def)
  show ?thesis
    using d i borda_conservation [OF d, of "''average''" scenario_time]
      borda_conservation [OF d2, of "''max''" scenario_time] l
    by simp
qed

text \<open>
  C1 (as stated) fails for the tie modes min, max and dense as soon as two players tie: in
  the three-player scenario \<open>N * (N + 1) / 2 = 6\<close>, but the Borda points sum to 7 under
  min, to 5 under max and to 8 under dense.
\<close>

theorem borda_conservation_counterexample:
  "borda_total (compute_rank_and_borda_with_time scenario_pts scenario_time ''min'')
     \<noteq> Some (of_nat (length scenario_pts) * (of_nat (length scenario_pts) + 1) / 2)
   \<and> borda_total (compute_rank_and_borda_with_time scenario_pts scenario_time ''max'')
     \<noteq> Some (of_nat (length scenario_pts) * (of_nat (length scenario_pts) + 1) / 2)
   \<and> borda_total (compute_rank_and_borda_with_time scenario_pts scenario_time ''dense'')
     \<noteq> Some (of_nat (length scenario_pts) * (of_nat (length scenario_pts) + 1) / 2)"
  by code_simp

section \<open>Tie mode min against average and max\<close>

lemma map_of_const_list:
  "map_of (map (\<lambda>n. (n, v)) names) p = (if p \<in> set names then Some v else None)"
  by (induction names) auto

lemma map_of_assigned_Cons:
  "map_of (assigned m (names # gl) c) p =
     (if p \<in> set names then Some (group_value m c (length names))
      else map_of (assigned m gl (c + group_step m (length names))) p)"
  by (simp add: map_add_def map_of_const_list)

lemma min_avg_max_assigned:
  assumes "p \<in> set (concat gl)"
  shows "\<exists>a b d. map_of (assigned ''min'' gl c) p = Some a
             \<and> map_of (assigned ''average'' gl c) p = Some b
             \<and> map_of (assigned ''max'' gl c) p = Some d
             \<and> a \<le> b \<and> b \<le> d"
  using assms
proof (induction gl arbitrary: c)
  case Nil
  then show ?case by simp
next
  case (Cons names gl)
  let ?k = "length names"
  have st: "group_step ''min'' ?k = group_step ''average'' ?k"
           "group_step ''max'' ?k = group_step ''average'' ?k"
    by (simp_all add: group_step_def)
  show ?case
  proof (cases "p \<in> set names")
    case True
    then have k: "1 \<le> ?k" by (cases names) auto
    then have "(1::rat) \<le> of_nat ?k" by simp
    moreover have "(of_nat (c + ?k - 1) :: rat) = of_nat c + of_nat ?k - 1"
      using k by (simp add: of_nat_diff)
    ultimately have "group_value ''min'' c ?k \<le> group_value ''average'' c ?k
        \<and> group_value ''average'' c ?k \<le> group_value ''max'' c ?k"
      by (simp add: group_value_def)
    then show ?thesis using True by (simp only: map_of_assigned_Cons if_True) blast
  next
    case False
    then have "p \<in> set (concat gl)" using Cons.prems by simp
    from Cons.IH [OF this, of "c + group_step ''average'' ?k"]
    show ?thesis using False by (simp only: map_of_assigned_Cons st if_False)
  qed
qed

text \<open>
  C6: for every player of a map's entry set, the rank returned under tie mode min is at
  most the rank returned under tie mode average, which is at most the rank returned under
  tie mode max, for the same input; all three ranks exist.
\<close>

theorem min_le_average_le_max:
  assumes d: "distinct (map fst pts)" and p: "p \<in> fst ` set pts"
  shows "\<exists>rmin ravg rmax.
           rank_lookup (compute_rank_and_borda_with_time pts tm ''min'') p = Some rmin
         \<and> rank_lookup (compute_rank_and_borda_with_time pts tm ''average'') p = Some ravg
         \<and> rank_lookup (compute_rank_and_borda_with_time pts tm ''max'') p = Some rmax
         \<and> rmin \<le> ravg \<and> ravg \<le> rmax"
proof -
  have ne: "pts \<noteq> []" using p by auto
  have pin: "p \<in> set (concat (tie_groups pts tm))"
    using p by (simp only: set_tie_groups)
  have v: "valid_mode ''min''" "valid_mode ''average''" "valid_mode ''max''"
    by (simp_all add: valid_mode_def)
  have r: "rank_lookup (compute_rank_and_borda_with_time pts tm m) p
             = map_of (assigned m (tie_groups pts tm) 1) p" if "valid_mode m" for m
    using ranker_result [OF d ne, of m tm] that by (simp add: rank_lookup_def)
  show ?thesis
    unfolding r [OF v(1)] r [OF v(2)] r [OF v(3)]
    by (rule min_avg_max_assigned [OF pin])
qed

theorem min_le_average_le_max_witness:
  "distinct (map fst scenario_pts) \<and> ''B'' \<in> fst ` set scenario_pts
   \<and> rank_lookup (compute_rank_and_borda_with_time scenario_pts scenario_time ''min'') ''B'' = Some 1
   \<and> rank_lookup (compute_rank_and_borda_with_time scenario_pts scenario_time ''average'') ''B'' = Some (3 / 2)
   \<and> rank_lookup (compute_rank_and_borda_with_time scenario_pts scenario_time ''max'') ''B'' = Some 2
   \<and> (\<exists>rmin ravg rmax.
           rank_lookup (compute_rank_and_borda_with_time scenario_pts scenario_time ''min'') ''B'' = Some rmin
         \<and> rank_lookup (compute_rank_and_borda_with_time scenario_pts scenario_time ''average'') ''B'' = Some ravg
         \<and> rank_lookup (compute_rank_and_borda_with_time scenario_pts scenario_time ''max'') ''B'' = Some rmax
         \<and> rmin \<le> ravg \<and> ravg \<le> rmax)"
proof -
  have d: "distinct (map fst scenario_pts)" by (simp add: scenario_pts_def)
  have p: "''B'' \<in> fst ` set scenario_pts" by (simp add: scenario_pts_def)
  have e1: "rank_lookup (compute_rank_and_borda_with_time scenario_pts scenario_time ''min'') ''B'' = Some 1"
    by code_simp
  have e2: "rank_lookup (compute_rank_and_borda_with_time scenario_pts scenario_time ''average'') ''B'' = Some (3 / 2)"
    by code_simp
  have e3: "rank_lookup (compute_rank_and_borda_with_time scenario_pts scenario_time ''max'') ''B'' = Some 2"
    by code_simp
  show ?thesis
    using d p e1 e2 e3 min_le_average_le_max [OF d p, of scenario_time] by blast
qed

section \<open>Dense ranks\<close>

lemma dense_values_assigned:
  assumes "\<forall>names \<in> set gl. names \<noteq> []"
  shows "snd ` set (assigned ''dense'' gl c) = of_nat ` {c ..< c + length gl}"
  using assms
proof (induction gl arbitrary: c)
  case Nil
  then show ?case by simp
next
  case (Cons names gl)
  have ne: "names \<noteq> []" using Cons.prems by simp
  have gv: "group_value ''dense'' c (length names) = of_nat c"
    by (simp add: group_value_def)
  have gs: "group_step ''dense'' (length names) = 1"
    by (simp add: group_step_def)
  have hd: "snd ` set (map (\<lambda>n. (n, (of_nat c :: rat))) names) = {of_nat c}"
    using ne by (cases names) (auto simp: image_iff)
  have IH: "snd ` set (assigned ''dense'' gl (c + 1)) = of_nat ` {c + 1 ..< c + 1 + length gl}"
    using Cons.IH [of "c + 1"] Cons.prems by simp
  have "{c ..< c + length (names # gl)} = insert c {c + 1 ..< c + 1 + length gl}"
    by auto
  then show ?case
    using hd IH by (simp add: gv gs image_Un)
qed

text \<open>
  C7: for every non-empty input with distinct players, under tie mode dense the set of rank
  values the ranker assigns is exactly \<open>{1, ..., G}\<close>, where \<open>G\<close> is the number of
  distinct (points, time) pairs of the players.
\<close>

theorem dense_ranks_no_gaps:
  assumes d: "distinct (map fst pts)" and ne: "pts \<noteq> []"
  shows "\<exists>rank_best borda.
           compute_rank_and_borda_with_time pts tm ''dense'' = Inr (rank_best, borda)
         \<and> snd ` set rank_best = of_nat ` {1 .. card (group_key pts tm ` fst ` set pts)}"
proof -
  let ?gl = "tie_groups pts tm"
  have v: "valid_mode ''dense''" by (simp add: valid_mode_def)
  have nz: "\<forall>names \<in> set ?gl. names \<noteq> []" using tie_groups_nonempty by blast
  have "snd ` set (assigned ''dense'' ?gl 1) = of_nat ` {1 ..< 1 + length ?gl}"
    by (rule dense_values_assigned [OF nz])
  also have "{1 ..< 1 + length ?gl} = {1 .. card (group_key pts tm ` fst ` set pts)}"
    unfolding length_tie_groups_card by auto
  finally show ?thesis
    using ranker_result [OF d ne, of "''dense''" tm] v by simp
qed

theorem dense_ranks_no_gaps_witness:
  "distinct (map fst scenario_pts) \<and> scenario_pts \<noteq> []
   \<and> card (group_key scenario_pts scenario_time ` fst ` set scenario_pts) = 2
   \<and> (\<exists>rank_best borda.
           compute_rank_and_borda_with_time scenario_pts scenario_time ''dense'' = Inr (rank_best, borda)
         \<and> snd ` set rank_best = of_nat ` {1 .. 2})"
proof -
  have d: "distinct (map fst scenario_pts)" by (simp add: scenario_pts_def)
  have ne: "scenario_pts \<noteq> []" by (simp add: scenario_pts_def)
  have c: "card (group_key scenario_pts scenario_time ` fst ` set scenario_pts) = 2"
    by (simp add: scenario_pts_def scenario_time_def group_key_def getitem_def dict_get_def)
  show ?thesis
    using d ne c dense_ranks_no_gaps [OF d ne, of scenario_time] by simp
qed

section \<open>Independence of the input order\<close>

lemma map_of_perm:
  assumes d: "distinct (map fst xs)" and m: "mset ys = mset xs"
  shows "map_of ys = map_of xs"
proof -
  have "mset (map fst ys) = mset (map fst xs)" using m by simp
  then have d': "distinct (map fst ys)" using d by (metis mset_eq_imp_distinct_iff)
  have "set ys = set xs" using m by (metis mset_eq_setD)
  then show ?thesis using d d' by (simp add: map_of_inject_set)
qed

lemma inj_group_order_key: "inj group_order_key"
  by (auto simp: inj_on_def group_order_key_def prod_eq_iff)

lemma sorted_by_key_unique:
  assumes "inj f" "sorted (map f xs)" "sorted (map f ys)" "distinct xs" "distinct ys"
    "set xs = set ys"
  shows "xs = ys"
proof -
  have "distinct (map f xs)" "distinct (map f ys)"
    using assms(1,4,5) by (simp_all add: distinct_map inj_on_subset [OF _ subset_UNIV])
  moreover have "set (map f xs) = set (map f ys)" using assms(6) by simp
  ultimately have "map f xs = map f ys"
    using assms(2,3) by (metis sorted_distinct_set_unique)
  then show ?thesis using assms(1) by (simp add: inj_map_eq_map)
qed

lemma assigned_perm:
  assumes "list_all2 (\<lambda>a b. mset a = mset b) gl gl'"
  shows "map_of (assigned m gl c) = map_of (assigned m gl' c)"
  using assms
proof (induction gl gl' arbitrary: c rule: list_all2_induct)
  case Nil
  then show ?case by simp
next
  case (Cons a gl b gl')
  have l: "length a = length b" using Cons.hyps(1) by (metis size_mset)
  have s: "set a = set b" using Cons.hyps(1) by (metis mset_eq_setD)
  show ?case
  proof
    fix p
    show "map_of (assigned m (a # gl) c) p = map_of (assigned m (b # gl') c) p"
      unfolding map_of_assigned_Cons l s
      using Cons.IH [of "c + group_step m (length b)"] by simp
  qed
qed

lemma tie_groups_perm:
  assumes d: "distinct (map fst pts)" and mp: "mset pts' = mset pts"
    and mt: "map_of tm' = map_of tm"
  shows "list_all2 (\<lambda>a b. mset a = mset b) (tie_groups pts' tm') (tie_groups pts tm)"
proof -
  have mo: "map_of pts' = map_of pts" by (rule map_of_perm [OF d mp])
  have gk: "group_key pts' tm' = group_key pts tm"
    by (rule ext) (simp add: group_key_def getitem_def dict_get_def mo mt)
  have sp: "set pts' = set pts" using mp by (metis mset_eq_setD)
  have ks: "keys_sorted_of pts' tm' = keys_sorted_of pts tm"
  proof (rule sorted_by_key_unique [OF inj_group_order_key])
    show "sorted (map group_order_key (keys_sorted_of pts' tm'))" by (rule sorted_keys_sorted)
    show "sorted (map group_order_key (keys_sorted_of pts tm))" by (rule sorted_keys_sorted)
    show "distinct (keys_sorted_of pts' tm')" by (rule distinct_keys_sorted)
    show "distinct (keys_sorted_of pts tm)" by (rule distinct_keys_sorted)
    show "set (keys_sorted_of pts' tm') = set (keys_sorted_of pts tm)"
      by (simp only: set_keys_sorted gk sp)
  qed
  have ps: "mset (players_sorted_of pts' tm') = mset (players_sorted_of pts tm)"
    using mp by (simp add: players_sorted_of_def)
  show ?thesis
    unfolding tie_groups_eq ks gk
    by (simp add: list_all2_map1 list_all2_map2 list_all2_same ps)
qed

text \<open>
  C4: for every input with distinct players and every tie mode, permuting the order of the
  entries (of the points dictionary and of the time dictionary built from them) leaves the
  rank and the Borda points of every player unchanged.
\<close>

theorem ranker_order_independent:
  assumes d: "distinct (map fst pts)" and dt: "distinct (map fst tm)"
    and mp: "mset pts' = mset pts" and mt: "mset tm' = mset tm"
    and v: "valid_mode m"
  shows "rank_lookup (compute_rank_and_borda_with_time pts' tm' m)
           = rank_lookup (compute_rank_and_borda_with_time pts tm m)
       \<and> borda_lookup (compute_rank_and_borda_with_time pts' tm' m)
           = borda_lookup (compute_rank_and_borda_with_time pts tm m)"
proof (cases "pts = []")
  case True
  then have "pts' = []" using mp by simp
  then show ?thesis
    using True by (simp add: compute_rank_and_borda_with_time_def)
next
  case False
  then have ne': "pts' \<noteq> []" using mp by auto
  have d': "distinct (map fst pts')"
  proof -
    have "mset (map fst pts') = mset (map fst pts)" using mp by simp
    then show ?thesis using d by (metis mset_eq_imp_distinct_iff)
  qed
  have len: "length pts' = length pts" using mp by (metis size_mset)
  have mo: "map_of tm' = map_of tm" by (rule map_of_perm [OF dt mt])
  have eq: "map_of (assigned m (tie_groups pts' tm') 1) = map_of (assigned m (tie_groups pts tm) 1)"
    by (rule assigned_perm [OF tie_groups_perm [OF d mp mo]])
  have b: "map_of (map (\<lambda>(p, r). (p, f r)) xs) = map_option f \<circ> map_of xs"
    for f :: "rat \<Rightarrow> rat" and xs :: "(string, rat) dict"
    by (rule map_of_map)
  show ?thesis
    unfolding ranker_result [OF d False disjI1 [OF v]] ranker_result [OF d' ne' disjI1 [OF v]]
      rank_lookup_def borda_lookup_def
    using eq by (simp add: b len)
qed

theorem ranker_order_independent_witness:
  "distinct (map fst scenario_pts) \<and> distinct (map fst scenario_time)
   \<and> mset (rev scenario_pts) = mset scenario_pts
   \<and> mset [(''B'', 60), (''C'', 90), (''A'', 60)] = mset scenario_time
   \<and> valid_mode ''average''
   \<and> rank_lookup (compute_rank_and_borda_with_time (rev scenario_pts) [(''B'', 60), (''C'', 90), (''A'', 60)] ''average'')
       = rank_lookup (compute_rank_and_borda_with_time scenario_pts scenario_time ''average'')
   \<and> borda_lookup (compute_rank_and_borda_with_time (rev scenario_pts) [(''B'', 60), (''C'', 90), (''A'', 60)] ''average'')
       = borda_lookup (compute_rank_and_borda_with_time scenario_pts scenario_time ''average'')"
proof -
  have d: "distinct (map fst scenario_pts)" by (simp add: scenario_pts_def)
  have dt: "distinct (map fst scenario_time)" by (simp add: scenario_time_def)
  have mp: "mset (rev scenario_pts) = mset scenario_pts" by simp
  have mt: "mset [(''B'', 60), (''C'', 90), (''A'', 60)] = mset scenario_time"
    by (simp add: scenario_time_def)
  have v: "valid_mode ''average''" by (simp add: valid_mode_def)
  show ?thesis
    using d dt mp mt v ranker_order_independent [OF d dt mp mt v] by blast
qed

section \<open>The three-player scenario\<close>

text \<open>
  C2 (as stated): under tie mode dense the scenario gives A and B Borda 2 and C Borda 1.
  The ranker computes Borda as \<open>N - rank + 1\<close> with \<open>N = 3\<close> players in every mode, so
  dense ranks 1, 1, 2 give Borda 3, 3, 2: the stated dense Borda values do not occur.
\<close>

theorem scenario_dense_borda_counterexample:
  "\<not> (borda_lookup (compute_rank_and_borda_with_time scenario_pts scenario_time ''dense'') ''A'' = Some 2
     \<and> borda_lookup (compute_rank_and_borda_with_time scenario_pts scenario_time ''dense'') ''B'' = Some 2
     \<and> borda_lookup (compute_rank_and_borda_with_time scenario_pts scenario_time ''dense'') ''C'' = Some 1)"
  by code_simp

text \<open>
  C2 (amended): for the scenario the ranker returns, under average, rank 3/2 and Borda 5/2
  for A and B, rank 3 and Borda 1 for C; under min, rank 1 and Borda 3 for A and B, rank 3
  and Borda 1 for C; under dense, rank 1 and Borda 3 for A and B, rank 2 and Borda 2 for C.
\<close>

theorem scenario_three_players:
  "compute_rank_and_borda_with_time scenario_pts scenario_time ''average''
     = Inr ([(''A'', 3 / 2), (''B'', 3 / 2), (''C'', 3)], [(''A'', 5 / 2), (''B'', 5 / 2), (''C'', 1)])
   \<and> compute_rank_and_borda_with_time scenario_pts scenario_time ''min''
     = Inr ([(''A'', 1), (''B'', 1), (''C'', 3)], [(''A'', 3), (''B'', 3), (''C'', 1)])
   \<and> compute_rank_and_borda_with_time scenario_pts scenario_time ''dense''
     = Inr ([(''A'', 1), (''B'', 1), (''C'', 2)], [(''A'', 3), (''B'', 3), (''C'', 2)])"
  by code_simp

end
